theory Spec2Isabelle
  imports Complex_Main
begin

section \<open>Numbers\<close>

text \<open>
  The service computes on JavaScript numbers. They are modelled as exact reals together
  with the one special value the post-processing can produce from finite data, \<open>NaN\<close>
  (reading past the end of the buffer gives \<open>undefined\<close>, which \<open>+=\<close> turns into
  \<open>NaN\<close>, and \<open>0 / 0\<close> is \<open>NaN\<close>). Rounding, overflow to an infinity and the sign
  of zero are not part of this model: arithmetic on \<open>Num\<close> values is exact.
\<close>

datatype jsnum = Num real | NaN

fun jsadd :: "jsnum \<Rightarrow> jsnum \<Rightarrow> jsnum" where
  "jsadd (Num a) (Num b) = Num (a + b)"
| "jsadd _ _ = NaN"

fun jsmul :: "jsnum \<Rightarrow> jsnum \<Rightarrow> jsnum" where
  "jsmul (Num a) (Num b) = Num (a * b)"
| "jsmul _ _ = NaN"

text \<open>
  Division. A non-zero number divided by zero is an infinity in JavaScript, which this
  model has no value for; the program divides by zero only as \<open>0 / 0\<close> (in
  \<open>meanPoolTensor\<close> with no tokens, where every numerator is still the initial 0), and
  \<open>l2norm\<close> replaces a zero divisor by 1 first.
\<close>

fun jsdiv :: "jsnum \<Rightarrow> jsnum \<Rightarrow> jsnum" where
  "jsdiv (Num a) (Num b) = (if b = 0 then NaN else Num (a / b))"
| "jsdiv _ _ = NaN"

fun Math_sqrt :: "jsnum \<Rightarrow> jsnum" where
  "Math_sqrt (Num a) = (if a < 0 then NaN else Num (sqrt a))"
| "Math_sqrt NaN = NaN"

text \<open>\<open>x || 1\<close> on a number: 0 and \<open>NaN\<close> are falsy.\<close>

fun or_one :: "jsnum \<Rightarrow> jsnum" where
  "or_one (Num a) = (if a = 0 then Num 1 else Num a)"
| "or_one NaN = Num 1"

section \<open>Vector post-processing\<close>

text \<open>
  A raw tensor: \<open>dims = [batch, tokens, dim]\<close> and the flat buffer \<open>data\<close>.
\<close>

record tensor =
  t_batch :: nat
  t_tokens :: nat
  t_dim :: nat
  t_data :: "jsnum list"

text \<open>\<open>data[i]\<close> as an operand of \<open>+=\<close>: past the end it is \<open>undefined\<close>, hence \<open>NaN\<close>.\<close>

definition data_at :: "jsnum list \<Rightarrow> nat \<Rightarrow> jsnum" where
  "data_at data i = (if i < length data then data ! i else NaN)"

text \<open>\<open>for (let i = 0; i < tokens * dim; i++) out[i % dim] += data[i];\<close>\<close>

definition pool_accumulate :: "nat \<Rightarrow> nat \<Rightarrow> jsnum list \<Rightarrow> jsnum list \<Rightarrow> jsnum list" where
  "pool_accumulate tokens dm data out0 =
     fold (\<lambda>i out. out[i mod dm := jsadd (out ! (i mod dm)) (data_at data i)])
          [0..<tokens * dm] out0"

text \<open>\<open>for (let d = 0; d < dim; d++) out[d] /= tokens;\<close>\<close>

definition pool_divide :: "nat \<Rightarrow> nat \<Rightarrow> jsnum list \<Rightarrow> jsnum list" where
  "pool_divide tokens dm out0 =
     fold (\<lambda>d out. out[d := jsdiv (out ! d) (Num (real tokens))]) [0..<dm] out0"

text \<open>
  \<open>meanPoolTensor\<close> of \<open>server.js\<close> and of the variant with a target dimension: the
  pooled vector and the token count.
\<close>

definition meanPoolTensor :: "tensor \<Rightarrow> jsnum list \<times> nat" where
  "meanPoolTensor t =
     (let tokens = t_tokens t; dm = t_dim t; data = t_data t;
          out = replicate dm (Num 0);
          out = pool_accumulate tokens dm data out;
          out = pool_divide tokens dm out
      in (out, tokens))"

text \<open>
  \<open>l2norm\<close>: \<open>let s = 0; for (const x of v) s += x * x; const n = Math.sqrt(s) || 1;
  return v.map(x => x / n)\<close>.
\<close>

definition l2norm :: "jsnum list \<Rightarrow> jsnum list" where
  "l2norm v =
     (let s = fold (\<lambda>x s. jsadd s (jsmul x x)) v (Num 0);
          n = or_one (Math_sqrt s)
      in map (\<lambda>x. jsdiv x n) v)"

text \<open>
  \<open>vec.slice(0, end)\<close>: a negative \<open>end\<close> counts from the end of the array, and the
  result is cut to the array.
\<close>

definition slice0 :: "'a list \<Rightarrow> int \<Rightarrow> 'a list" where
  "slice0 vec end =
     (let len = int (length vec);
          final = (if end < 0 then max (len + end) 0 else min end len)
      in take (nat final) vec)"

text \<open>
  \<open>adjustDim\<close>. The target is the integer read from the configuration; lists have no
  upper bound on their length here.
\<close>

definition adjustDim :: "jsnum list \<Rightarrow> int \<Rightarrow> jsnum list" where
  "adjustDim vec target =
     (if int (length vec) = target then vec
      else if int (length vec) < target
        then vec @ replicate (nat (target - int (length vec))) (Num 0)
      else slice0 vec target)"

text \<open>\<open>const NORMALIZE = true\<close>, in every variant of the server.\<close>

definition NORMALIZE :: bool where
  "NORMALIZE = True"

text \<open>\<open>Number(x)\<close> applied to a number.\<close>

definition Number :: "jsnum \<Rightarrow> jsnum" where
  "Number x = x"

text \<open>
  The body of the \<open>/embed\<close> loop once the tensor is there. In \<open>server.js\<close>:
  \<open>const { vec, tokens } = meanPoolTensor(raw); const emb = NORMALIZE ? l2norm(vec) : vec;\<close>
  and the entry holds \<open>emb.map(Number)\<close>.
\<close>

definition embed_item :: "tensor \<Rightarrow> jsnum list \<times> nat" where
  "embed_item raw =
     (let (vec, tokens) = meanPoolTensor raw;
          emb = (if NORMALIZE then l2norm vec else vec)
      in (map Number emb, tokens))"

text \<open>
  In the variant with a target dimension the vector is reconciled after normalization:
  \<open>let emb = NORMALIZE ? l2norm(vec) : vec; emb = adjustDim(emb, TARGET_DIM);\<close>
\<close>

definition embed_item_target :: "int \<Rightarrow> tensor \<Rightarrow> jsnum list \<times> nat" where
  "embed_item_target TARGET_DIM raw =
     (let (vec, tokens) = meanPoolTensor raw;
          emb = (if NORMALIZE then l2norm vec else vec);
          emb = adjustDim emb TARGET_DIM
      in (map Number emb, tokens))"

subsection \<open>Reference notions\<close>



section \<open>Values of a request\<close>

text \<open>
  Strings are lists of code units; the model has the code units below 256. The white
  space that \<open>trim\<close> removes is, in this range, TAB, LF, VT, FF, CR, SP and NBSP.
\<close>

definition js_whitespace :: "char \<Rightarrow> bool" where
  "js_whitespace c = ((of_char c :: nat) \<in> {9, 10, 11, 12, 13, 32, 160})"

definition trim :: "string \<Rightarrow> string" where
  "trim s = rev (dropWhile js_whitespace (rev (dropWhile js_whitespace s)))"

text \<open>
  A thrown value, given by the two observations the handlers make of it: \<open>e?.message\<close>
  (\<open>None\<close> when there is none) and \<open>String(e)\<close>.
\<close>

datatype js_thrown = Thrown (thrown_message: "string option") (thrown_String: string)

text \<open>\<open>String(e?.message || e)\<close>: the empty message is falsy.\<close>

definition error_text :: "js_thrown \<Rightarrow> string" where
  "error_text e =
     (case thrown_message e of
        Some m \<Rightarrow> if m \<noteq> [] then m else thrown_String e
      | None \<Rightarrow> thrown_String e)"

text \<open>
  The values a parsed JSON body can hold, and \<open>undefined\<close> for an absent field. A number
  is given by its truthiness (it is neither 0 nor \<open>NaN\<close>) and its \<open>String\<close> image. An
  object is plain; the flag says whether it can be converted to a string: an object with
  an own property \<open>toString\<close> (which no JSON value makes callable) cannot, and
  \<open>String\<close> throws a \<open>TypeError\<close> on it.
\<close>

datatype jsval =
    JUndefined
  | JNull
  | JBool bool
  | JNum bool string
  | JStr string
  | JArr "jsval list"
  | JObj bool

definition TypeError_primitive :: js_thrown where
  "TypeError_primitive =
     Thrown (Some ''Cannot convert object to primitive value'')
            ''TypeError: Cannot convert object to primitive value''"

fun join_comma :: "string list \<Rightarrow> string" where
  "join_comma [] = []"
| "join_comma [p] = p"
| "join_comma (p # q # ps) = p @ '','' @ join_comma (q # ps)"

text \<open>
  \<open>String(v)\<close>. An array is the comma-separated images of its elements, where
  \<open>undefined\<close> and \<open>null\<close> elements give the empty string.
\<close>

fun js_String :: "jsval \<Rightarrow> js_thrown + string"
  and join_parts :: "jsval list \<Rightarrow> js_thrown + string list" where
  "js_String JUndefined = Inr ''undefined''"
| "js_String JNull = Inr ''null''"
| "js_String (JBool b) = Inr (if b then ''true'' else ''false'')"
| "js_String (JNum t img) = Inr img"
| "js_String (JStr s) = Inr s"
| "js_String (JArr xs) =
     (case join_parts xs of Inl e \<Rightarrow> Inl e | Inr ps \<Rightarrow> Inr (join_comma ps))"
| "js_String (JObj ok) = (if ok then Inr ''[object Object]'' else Inl TypeError_primitive)"
| "join_parts [] = Inr []"
| "join_parts (x # xs) =
     (case (case x of JUndefined \<Rightarrow> Inr [] | JNull \<Rightarrow> Inr [] | _ \<Rightarrow> js_String x) of
        Inl e \<Rightarrow> Inl e
      | Inr p \<Rightarrow> (case join_parts xs of Inl e \<Rightarrow> Inl e | Inr ps \<Rightarrow> Inr (p # ps)))"

fun js_truthy :: "jsval \<Rightarrow> bool" where
  "js_truthy JUndefined = False"
| "js_truthy JNull = False"
| "js_truthy (JBool b) = b"
| "js_truthy (JNum t img) = t"
| "js_truthy (JStr s) = (s \<noteq> [])"
| "js_truthy (JArr xs) = True"
| "js_truthy (JObj ok) = True"

text \<open>\<open>a || b\<close> and \<open>a ?? b\<close>.\<close>

definition js_or :: "jsval \<Rightarrow> jsval \<Rightarrow> jsval" where
  "js_or a b = (if js_truthy a then a else b)"

definition js_nullish :: "jsval \<Rightarrow> jsval \<Rightarrow> jsval" where
  "js_nullish a b = (if a = JUndefined \<or> a = JNull then b else a)"

section \<open>Request normalizer\<close>

text \<open>\<open>Array.isArray(input) ? input : [String(input ?? " ")]\<close>\<close>

definition items_of :: "jsval \<Rightarrow> js_thrown + jsval list" where
  "items_of input =
     (case input of
        JArr xs \<Rightarrow> Inr xs
      | _ \<Rightarrow> (case js_String (js_nullish input (JStr '' '')) of
                Inl e \<Rightarrow> Inl e
              | Inr s \<Rightarrow> Inr [JStr s]))"

text \<open>\<open>t => { const s = String(t ?? "").trim(); return s.length ? s : " "; }\<close>\<close>

definition text_of :: "jsval \<Rightarrow> js_thrown + string" where
  "text_of t =
     (case js_String (js_nullish t (JStr '''')) of
        Inl e \<Rightarrow> Inl e
      | Inr s0 \<Rightarrow> (let s = trim s0 in Inr (if length s \<noteq> 0 then s else '' '')))"

text \<open>\<open>items.map(f)\<close> for a callback that can throw: the first throw ends the map.\<close>

fun map_throwing :: "('a \<Rightarrow> js_thrown + 'b) \<Rightarrow> 'a list \<Rightarrow> js_thrown + 'b list" where
  "map_throwing f [] = Inr []"
| "map_throwing f (x # xs) =
     (case f x of
        Inl e \<Rightarrow> Inl e
      | Inr y \<Rightarrow> (case map_throwing f xs of Inl e \<Rightarrow> Inl e | Inr ys \<Rightarrow> Inr (y # ys)))"

definition texts_of :: "jsval \<Rightarrow> js_thrown + string list" where
  "texts_of input =
     (case items_of input of Inl e \<Rightarrow> Inl e | Inr items \<Rightarrow> map_throwing text_of items)"

text \<open>
  Reference notions for the normalizer. \<open>String_returns v\<close>: the conversion of \<open>v\<close>
  to a string does not throw. The items of an input: the elements of an array, the value
  itself otherwise. The text of an item, in the words of the specification: its string
  form (\<open>undefined\<close> and \<open>null\<close> as the empty string), trimmed, and a single space
  when that is empty.
\<close>

definition String_returns :: "jsval \<Rightarrow> bool" where
  "String_returns v = (\<not> isl (js_String v))"

definition request_items :: "jsval \<Rightarrow> jsval list" where
  "request_items input = (case input of JArr xs \<Rightarrow> xs | _ \<Rightarrow> [input])"

definition placeholder_text :: "jsval \<Rightarrow> string" where
  "placeholder_text t =
     (let s = trim (projr (js_String (js_nullish t (JStr ''''))))
      in if s = [] then '' '' else s)"

section \<open>The \<open>/embed\<close> handler\<close>

text \<open>
  The request fields the handler reads, \<open>req.body?.input\<close> and \<open>req.body?.model\<close>
  (\<open>JUndefined\<close> when absent), and the response it sends.
\<close>

record request =
  body_input :: jsval
  body_model :: jsval

record embedding_entry =
  e_object :: string
  e_index :: nat
  e_embedding :: "jsnum list"

record response =
  r_status :: nat
  r_object :: string
  r_data :: "embedding_entry list"
  r_model :: jsval
  r_prompt_tokens :: nat
  r_total_tokens :: nat
  r_error :: "string option"

text \<open>
  The inference collaborator: a call takes the collaborator's state and a text, and
  returns a tensor or throws.
\<close>

type_synonym 's embedder = "'s \<Rightarrow> string \<Rightarrow> (js_thrown + tensor) \<times> 's"

text \<open>
  \<open>for (let i = 0; i < texts.length; i++) { const raw = await embedder(texts[i]); ...
  totalTokens += tokens; data.push({ object: "embedding", index: i, embedding: ... }); }\<close>
  The two variants of the server differ in the loop only by what they compute from the
  tensor, which is the argument \<open>item\<close>. A throw of the collaborator leaves the loop.
\<close>

fun embed_loop ::
  "(tensor \<Rightarrow> jsnum list \<times> nat) \<Rightarrow> 's embedder \<Rightarrow> string list \<Rightarrow> nat \<Rightarrow>
   embedding_entry list \<Rightarrow> nat \<Rightarrow> 's \<Rightarrow> (js_thrown + embedding_entry list \<times> nat) \<times> 's" where
  "embed_loop item embedder [] i data totalTokens s = (Inr (data, totalTokens), s)"
| "embed_loop item embedder (text # rest) i data totalTokens s =
     (case embedder s text of
        (Inl e, s') \<Rightarrow> (Inl e, s')
      | (Inr raw, s') \<Rightarrow>
          (let (emb, tokens) = item raw
           in embed_loop item embedder rest (i + 1)
                (data @ [\<lparr>e_object = ''embedding'', e_index = i, e_embedding = emb\<rparr>])
                (totalTokens + tokens) s'))"

text \<open>The response of the \<open>catch\<close> block, and the response after the loop.\<close>

definition error_response :: "jsval \<Rightarrow> js_thrown \<Rightarrow> response" where
  "error_response model e =
     \<lparr>r_status = 500, r_object = ''list'', r_data = [], r_model = model,
      r_prompt_tokens = 0, r_total_tokens = 0, r_error = Some (error_text e)\<rparr>"

definition list_response :: "jsval \<Rightarrow> embedding_entry list \<Rightarrow> nat \<Rightarrow> response" where
  "list_response responseModel data totalTokens =
     \<lparr>r_status = 200, r_object = ''list'', r_data = data, r_model = responseModel,
      r_prompt_tokens = totalTokens, r_total_tokens = totalTokens, r_error = None\<rparr>"

text \<open>
  The handler, with the label of the response model and the loop body as arguments:
  everything from reading the body to the response is inside the \<open>try\<close>.
\<close>

definition embed_handler ::
  "string \<Rightarrow> (tensor \<Rightarrow> jsnum list \<times> nat) \<Rightarrow> 's embedder \<Rightarrow> request \<Rightarrow> 's \<Rightarrow> response \<times> 's" where
  "embed_handler label item embedder req s =
     (let input = body_input req;
          responseModel = js_or (body_model req) (JStr label)
      in case texts_of input of
           Inl e \<Rightarrow> (error_response (js_or (body_model req) (JStr label)) e, s)
         | Inr texts \<Rightarrow>
             (case embed_loop item embedder texts 0 [] 0 s of
                (Inl e, s') \<Rightarrow> (error_response (js_or (body_model req) (JStr label)) e, s')
              | (Inr (data, totalTokens), s') \<Rightarrow>
                  (list_response responseModel data totalTokens, s')))"

text \<open>\<open>app.post("/embed", ...)\<close> of \<open>server.js\<close>.\<close>

definition post_embed :: "'s embedder \<Rightarrow> request \<Rightarrow> 's \<Rightarrow> response \<times> 's" where
  "post_embed embedder req s =
     embed_handler ''text-embedding-3-small'' embed_item embedder req s"

text \<open>
  \<open>app.post("/embed", ...)\<close> of the variant with a target dimension; \<open>TARGET_DIM\<close> and
  \<open>RESPONSE_MODEL_LABEL\<close> are read from the environment at startup.
\<close>

definition post_embed_target :: "int \<Rightarrow> string \<Rightarrow> 's embedder \<Rightarrow> request \<Rightarrow> 's \<Rightarrow> response \<times> 's" where
  "post_embed_target TARGET_DIM RESPONSE_MODEL_LABEL embedder req s =
     embed_handler RESPONSE_MODEL_LABEL (embed_item_target TARGET_DIM) embedder req s"

text \<open>
  The successive calls of the collaborator on a batch, in order: the tensors when every
  call returns, the first thrown value otherwise. It is the reference the loop is
  compared with.
\<close>

fun call_all :: "'s embedder \<Rightarrow> string list \<Rightarrow> 's \<Rightarrow> (js_thrown + tensor list) \<times> 's" where
  "call_all embedder [] s = (Inr [], s)"
| "call_all embedder (text # rest) s =
     (case embedder s text of
        (Inl e, s') \<Rightarrow> (Inl e, s')
      | (Inr raw, s') \<Rightarrow>
          (case call_all embedder rest s' of
             (Inl e, s'') \<Rightarrow> (Inl e, s'')
           | (Inr raws, s'') \<Rightarrow> (Inr (raw # raws), s'')))"

text \<open>
  The entries of a response for the tensors of a batch, numbered from \<open>i\<close> on; also a
  reference notion.
\<close>

definition entries_from ::
  "(tensor \<Rightarrow> jsnum list \<times> nat) \<Rightarrow> nat \<Rightarrow> tensor list \<Rightarrow> embedding_entry list" where
  "entries_from item i raws =
     map (\<lambda>(k, raw). \<lparr>e_object = ''embedding'', e_index = k, e_embedding = fst (item raw)\<rparr>)
         (zip [i..<i + length raws] raws)"

section \<open>The variant with prefixes and built-in pooling\<close>

text \<open>\<open>const USE_PREFIX_FOR_BGE = true\<close>\<close>

definition USE_PREFIX_FOR_BGE :: bool where
  "USE_PREFIX_FOR_BGE = True"

text \<open>
  A letter of a pattern against a code unit under the flag \<open>i\<close>: both are compared
  after upper-casing, and only the ASCII letters have an ASCII upper case, so an ASCII
  letter matches itself in either case and nothing else.
\<close>

definition ascii_upper :: "char \<Rightarrow> char" where
  "ascii_upper c =
     (case map_of (zip ''abcdefghijklmnopqrstuvwxyz'' ''ABCDEFGHIJKLMNOPQRSTUVWXYZ'') c of
        Some u \<Rightarrow> u
      | None \<Rightarrow> c)"

definition letter_i :: "char \<Rightarrow> char \<Rightarrow> bool" where
  "letter_i p c = (ascii_upper c = ascii_upper p)"

text \<open>\<open>/bge/i.test(s)\<close>: the pattern is tried at every position, from the left.\<close>

fun regex_bge_i_test :: "string \<Rightarrow> bool" where
  "regex_bge_i_test (a # b # c # rest) =
     ((letter_i CHR ''b'' a \<and> letter_i CHR ''g'' b \<and> letter_i CHR ''e'' c)
      \<or> regex_bge_i_test (b # c # rest))"
| "regex_bge_i_test _ = False"

definition withPrefix :: "string \<Rightarrow> string \<Rightarrow> string \<Rightarrow> string" where
  "withPrefix MODEL_ID str kind =
     (if \<not> USE_PREFIX_FOR_BGE \<or> \<not> regex_bge_i_test MODEL_ID then str
      else if kind = ''query'' then ''query: '' @ str
      else ''passage: '' @ str)"

text \<open>
  The marker as a case-insensitive substring, in the words of the specification: some
  part of the identifier equals the marker up to the case of ASCII letters.
\<close>

definition contains_ci :: "string \<Rightarrow> string \<Rightarrow> bool" where
  "contains_ci marker s =
     (\<exists>pre mid post. s = pre @ mid @ post \<and> map ascii_upper mid = map ascii_upper marker)"







section \<open>Mean pooling\<close>









section \<open>L2 normalization\<close>












section \<open>Dimension reconciliation\<close>

text \<open>
  Claim C2. For a target dimension (a non-negative integer), \<open>adjustDim\<close> returns the
  vector itself when its length is the target, the vector followed by
  \<open>target - length\<close> zeros when it is shorter, and its first \<open>target\<close> components
  when it is longer; the length of the result is the target, and so is the length of
  every embedding the variant with a target dimension computes from a tensor.
\<close>

theorem adjustDim_cases:
  assumes "0 \<le> target"
  shows "(int (length v) = target \<longrightarrow> adjustDim v target = v)
       \<and> (int (length v) < target \<longrightarrow>
            adjustDim v target = v @ replicate (nat target - length v) (Num 0))
       \<and> (target < int (length v) \<longrightarrow> adjustDim v target = take (nat target) v)
       \<and> int (length (adjustDim v target)) = target
       \<and> int (length (fst (embed_item_target target raw))) = target"
proof -
  have len: "int (length (adjustDim w target)) = target" for w
    using assms by (auto simp: adjustDim_def slice0_def Let_def min_def nat_diff_distrib')
  have a: "int (length v) < target \<longrightarrow>
            adjustDim v target = v @ replicate (nat target - length v) (Num 0)"
    using assms by (auto simp: adjustDim_def nat_diff_distrib')
  have b: "target < int (length v) \<longrightarrow> adjustDim v target = take (nat target) v"
    using assms by (auto simp: adjustDim_def slice0_def Let_def min_def)
  have c: "int (length (fst (embed_item_target target raw))) = target"
    using len by (simp add: embed_item_target_def Let_def split: prod.splits)
  show ?thesis using len[of v] a b c by (simp add: adjustDim_def)
qed

theorem adjustDim_cases_witness:
  "(0::int) \<le> 3
   \<and> adjustDim [Num 1, Num 2, Num 3] 3 = [Num 1, Num 2, Num 3]
   \<and> adjustDim [Num 1, Num 2] 3 = [Num 1, Num 2, Num 0]
   \<and> adjustDim [Num 1, Num 2, Num 3, Num 4] 3 = [Num 1, Num 2, Num 3]"
  using adjustDim_cases[of 3 "[Num 1, Num 2, Num 3]"] adjustDim_cases[of 3 "[Num 1, Num 2]"]
    adjustDim_cases[of 3 "[Num 1, Num 2, Num 3, Num 4]"]
  by (simp add: numeral_3_eq_3)


section \<open>Normalization comes before reconciliation\<close>










section \<open>The handler and the calls of the collaborator\<close>

text \<open>
  The loop of the handler makes the calls of \<open>call_all\<close>: it leaves with the first
  thrown value, and otherwise has appended one entry per tensor, in order.
\<close>

lemma entries_from_Nil: "entries_from item i [] = []"
  by (simp add: entries_from_def)

lemma entries_from_Cons:
  "entries_from item i (raw # raws) =
     \<lparr>e_object = ''embedding'', e_index = i, e_embedding = fst (item raw)\<rparr> # entries_from item (Suc i) raws"
proof -
  have "[i..<i + length (raw # raws)] = i # [Suc i..<Suc i + length raws]"
    using upt_conv_Cons[of i "i + length (raw # raws)"] by (simp del: upt_Suc)
  then show ?thesis unfolding entries_from_def by (simp del: upt_Suc)
qed

lemma length_entries_from: "length (entries_from item i raws) = length raws"
  by (simp add: entries_from_def)

lemma nth_entries_from:
  "k < length raws \<Longrightarrow> entries_from item i raws ! k =
     \<lparr>e_object = ''embedding'', e_index = i + k, e_embedding = fst (item (raws ! k))\<rparr>"
  by (simp add: entries_from_def)

lemma embed_loop_call_all:
  "embed_loop item embedder texts i data totalTokens s =
     (case call_all embedder texts s of
        (Inl e, s') \<Rightarrow> (Inl e, s')
      | (Inr raws, s') \<Rightarrow>
          (Inr (data @ entries_from item i raws,
                totalTokens + (\<Sum>raw\<leftarrow>raws. snd (item raw))), s'))"
proof (induction texts arbitrary: i data totalTokens s)
  case Nil
  then show ?case by (simp add: entries_from_Nil)
next
  case (Cons t rest)
  show ?case
  proof (cases "embedder s t")
    case (Pair r s1)
    show ?thesis
    proof (cases r)
      case (Inl e)
      with Pair show ?thesis by simp
    next
      case (Inr raw)
      obtain emb tokens where it: "item raw = (emb, tokens)" by (cases "item raw")
      show ?thesis
      proof (cases "call_all embedder rest s1")
        case (Pair q s2)
        with \<open>embedder s t = (r, s1)\<close> Inr it Cons.IH[of "Suc i" _ _ s1] show ?thesis
          by (cases q) (simp_all add: entries_from_Cons)
      qed
    qed
  qed
qed

lemma call_all_length: "call_all embedder texts s = (Inr raws, s') \<Longrightarrow> length raws = length texts"
proof (induction texts arbitrary: raws s s')
  case Nil then show ?case by simp
next
  case (Cons t ts)
  then show ?case by (auto split: prod.splits sum.splits)
qed

lemma map_throwing_length: "map_throwing f xs = Inr ys \<Longrightarrow> length ys = length xs"
  by (induction xs arbitrary: ys) (auto split: sum.splits)

lemma embed_handler_failure:
  assumes "texts_of (body_input req) = Inr texts" and "call_all embedder texts s = (Inl e, s')"
  shows "embed_handler label item embedder req s
       = (error_response (js_or (body_model req) (JStr label)) e, s')"
  using assms by (simp add: embed_handler_def Let_def embed_loop_call_all)

lemma embed_handler_success:
  assumes "texts_of (body_input req) = Inr texts" and "call_all embedder texts s = (Inr raws, s')"
  shows "embed_handler label item embedder req s
       = (list_response (js_or (body_model req) (JStr label)) (entries_from item 0 raws)
            (\<Sum>raw\<leftarrow>raws. snd (item raw)), s')"
  using assms by (simp add: embed_handler_def Let_def embed_loop_call_all)

lemma embed_handler_unconvertible:
  assumes "texts_of (body_input req) = Inl e"
  shows "embed_handler label item embedder req s
       = (error_response (js_or (body_model req) (JStr label)) e, s)"
  using assms by (simp add: embed_handler_def Let_def)

lemma embed_handler_model:
  "r_model (fst (embed_handler label item embedder req s)) = js_or (body_model req) (JStr label)"
  by (simp add: embed_handler_def Let_def error_response_def list_response_def
      split: sum.splits prod.splits)

lemma items_texts_length:
  assumes "texts_of input = Inr texts"
  shows "\<exists>items. items_of input = Inr items \<and> length texts = length items"
  using assms by (auto simp: texts_of_def split: sum.splits dest: map_throwing_length)

lemma embed_handler_status_200:
  assumes "r_status (fst (embed_handler label item embedder req s)) = 200"
  shows "\<exists>texts raws s'. texts_of (body_input req) = Inr texts
           \<and> call_all embedder texts s = (Inr raws, s')"
proof (cases "texts_of (body_input req)")
  case (Inl e)
  with assms show ?thesis by (simp add: embed_handler_unconvertible error_response_def)
next
  case (Inr texts)
  obtain r s' where c: "call_all embedder texts s = (r, s')" by (cases "call_all embedder texts s")
  show ?thesis
  proof (cases r)
    case (Inl e)
    with assms Inr c show ?thesis by (simp add: embed_handler_failure error_response_def)
  next
    case (Inr raws)
    with \<open>texts_of (body_input req) = Inr texts\<close> c show ?thesis by simp
  qed
qed

lemma embed_handler_in_order:
  assumes "r_status (fst (embed_handler label item embedder req s)) = 200"
  shows "\<exists>items texts raws s'.
           items_of (body_input req) = Inr items
         \<and> texts_of (body_input req) = Inr texts
         \<and> call_all embedder texts s = (Inr raws, s')
         \<and> length texts = length items \<and> length raws = length items
         \<and> length (r_data (fst (embed_handler label item embedder req s))) = length items
         \<and> (\<forall>i<length items.
               e_index (r_data (fst (embed_handler label item embedder req s)) ! i) = i
             \<and> e_embedding (r_data (fst (embed_handler label item embedder req s)) ! i)
                 = fst (item (raws ! i)))"
proof -
  from embed_handler_status_200[OF assms] obtain texts raws s'
    where t: "texts_of (body_input req) = Inr texts"
      and c: "call_all embedder texts s = (Inr raws, s')" by blast
  from items_texts_length[OF t] obtain items
    where i: "items_of (body_input req) = Inr items" and l: "length texts = length items" by blast
  have lr: "length raws = length items" using call_all_length[OF c] l by simp
  have d: "r_data (fst (embed_handler label item embedder req s)) = entries_from item 0 raws"
    by (simp add: embed_handler_success[OF t c] list_response_def)
  show ?thesis
    using t c i l lr by (simp add: d length_entries_from nth_entries_from)
qed

lemma trim_a: "trim ''a'' = ''a''"
  by (simp add: trim_def js_whitespace_def)

lemma trim_b: "trim ''b'' = ''b''"
  by (simp add: trim_def js_whitespace_def)

section \<open>A failure in the batch\<close>




section \<open>The order of a batch\<close>

text \<open>
  Claim C5. A successful response of \<open>/embed\<close> (status 200, in both variants) has one
  entry per item of the input, the entry at position \<open>i\<close> has \<open>index = i\<close>, and its
  embedding is computed from the tensor of the \<open>i\<close>-th call of the collaborator, which
  was made on the \<open>i\<close>-th text.
\<close>

theorem embed_success_order:
  assumes "resp = fst (post_embed embedder req s) \<and> item = embed_item
         \<or> resp = fst (post_embed_target TARGET_DIM LABEL embedder req s)
           \<and> item = embed_item_target TARGET_DIM"
    and "r_status resp = 200"
  shows "\<exists>items texts raws s'.
           items_of (body_input req) = Inr items
         \<and> texts_of (body_input req) = Inr texts
         \<and> call_all embedder texts s = (Inr raws, s')
         \<and> length texts = length items \<and> length raws = length items
         \<and> length (r_data resp) = length items
         \<and> (\<forall>i<length items.
               e_index (r_data resp ! i) = i
             \<and> e_embedding (r_data resp ! i) = fst (item (raws ! i)))"
  using assms
    embed_handler_in_order[of "''text-embedding-3-small''" embed_item embedder req s]
    embed_handler_in_order[of LABEL "embed_item_target TARGET_DIM" embedder req s]
  unfolding post_embed_def post_embed_target_def by blast

theorem embed_success_order_witness:
  "r_status (fst (post_embed (\<lambda>(s::unit) t. (Inr \<lparr>t_batch = 1, t_tokens = 1, t_dim = 1, t_data = [Num 1]\<rparr>, s))
      \<lparr>body_input = JArr [JStr ''a'', JStr ''b''], body_model = JUndefined\<rparr> ())) = 200
   \<and> map e_index (r_data (fst (post_embed
        (\<lambda>(s::unit) t. (Inr \<lparr>t_batch = 1, t_tokens = 1, t_dim = 1, t_data = [Num 1]\<rparr>, s))
        \<lparr>body_input = JArr [JStr ''a'', JStr ''b''], body_model = JUndefined\<rparr> ()))) = [0, 1]"
proof -
  let ?emb = "\<lambda>(s::unit) t. (Inr \<lparr>t_batch = 1, t_tokens = 1, t_dim = 1, t_data = [Num 1]\<rparr>, s)"
  let ?req = "\<lparr>body_input = JArr [JStr ''a'', JStr ''b''], body_model = JUndefined\<rparr>"
  let ?resp = "fst (post_embed ?emb ?req ())"
  have t: "texts_of (body_input ?req) = Inr [''a'', ''b'']"
    by (simp add: texts_of_def items_of_def text_of_def js_nullish_def trim_a trim_b)
  have c: "call_all ?emb [''a'', ''b''] ()
         = (Inr [\<lparr>t_batch = 1, t_tokens = 1, t_dim = 1, t_data = [Num 1]\<rparr>,
                 \<lparr>t_batch = 1, t_tokens = 1, t_dim = 1, t_data = [Num 1]\<rparr>], ())"
    by simp
  have st: "r_status ?resp = 200"
    unfolding post_embed_def
    by (subst embed_handler_success[OF t c]) (simp add: list_response_def)
  from embed_success_order[of ?resp ?emb ?req "()" embed_item, OF _ st]
  obtain items where i: "items_of (body_input ?req) = Inr items"
    and l: "length (r_data ?resp) = length items"
    and n: "\<forall>i<length items. e_index (r_data ?resp ! i) = i"
    by blast
  from i have "items = [JStr ''a'', JStr ''b'']" by (simp add: items_of_def)
  with l n have l2: "length (r_data ?resp) = 2" and n2: "\<forall>i<2. e_index (r_data ?resp ! i) = i"
    by simp_all
  have "map e_index (r_data ?resp) = [0, 1]"
    using l2 n2 by (auto simp: list_eq_iff_nth_eq less_Suc_eq numeral_2_eq_2)
  with st show ?thesis by simp
qed

section \<open>The model label\<close>

text \<open>
  Claim C9, as stated, fails: a request that supplies the empty string as its model is
  answered with the default label.
\<close>

theorem embed_model_echo_counterexample:
  "r_status (fst (post_embed (\<lambda>(s::unit) t. (Inr \<lparr>t_batch = 1, t_tokens = 1, t_dim = 1, t_data = [Num 1]\<rparr>, s))
        \<lparr>body_input = JStr ''a'', body_model = JStr ''''\<rparr> ())) = 200
   \<and> r_model (fst (post_embed (\<lambda>(s::unit) t. (Inr \<lparr>t_batch = 1, t_tokens = 1, t_dim = 1, t_data = [Num 1]\<rparr>, s))
        \<lparr>body_input = JStr ''a'', body_model = JStr ''''\<rparr> ())) = JStr ''text-embedding-3-small''
   \<and> r_model (fst (post_embed (\<lambda>(s::unit) t. (Inr \<lparr>t_batch = 1, t_tokens = 1, t_dim = 1, t_data = [Num 1]\<rparr>, s))
        \<lparr>body_input = JStr ''a'', body_model = JStr ''''\<rparr> ()))
       \<noteq> body_model \<lparr>body_input = JStr ''a'', body_model = JStr ''''\<rparr>"
proof -
  let ?ok = "\<lambda>(s::unit) t. (Inr \<lparr>t_batch = 1, t_tokens = 1, t_dim = 1, t_data = [Num 1]\<rparr>, s)"
  let ?req = "\<lparr>body_input = JStr ''a'', body_model = JStr ''''\<rparr>"
  have t: "texts_of (body_input ?req) = Inr [''a'']"
    by (simp add: texts_of_def items_of_def text_of_def js_nullish_def trim_a)
  have c1: "call_all ?ok [''a''] () = (Inr [\<lparr>t_batch = 1, t_tokens = 1, t_dim = 1, t_data = [Num 1]\<rparr>], ())"
    by simp
  have s1: "r_status (fst (post_embed ?ok ?req ())) = 200"
    unfolding post_embed_def
    by (subst embed_handler_success[OF t c1]) (simp add: list_response_def)
  have m: "r_model (fst (post_embed ?ok ?req ())) = JStr ''text-embedding-3-small''"
    by (simp add: post_embed_def embed_handler_model js_or_def)
  show ?thesis using s1 m by simp
qed

text \<open>
  Claim C9, amended. A model value that is truthy (any string that is not empty, for
  one) is the model field of the response, whether the response is a success or an
  error; for an absent or falsy value the model field is the default label.
\<close>

theorem embed_model_echo:
  "(js_truthy (body_model req) \<longrightarrow>
      r_model (fst (post_embed embedder req s)) = body_model req
    \<and> r_model (fst (post_embed_target TARGET_DIM LABEL embedder req s)) = body_model req)
   \<and> (\<not> js_truthy (body_model req) \<longrightarrow>
      r_model (fst (post_embed embedder req s)) = JStr ''text-embedding-3-small''
    \<and> r_model (fst (post_embed_target TARGET_DIM LABEL embedder req s)) = JStr LABEL)"
  by (simp add: post_embed_def post_embed_target_def embed_handler_model js_or_def)

theorem embed_model_echo_witness:
  "js_truthy (body_model \<lparr>body_input = JStr ''a'', body_model = JStr ''my-model''\<rparr>)
   \<and> r_status (fst (post_embed (\<lambda>(s::unit) t. (Inr \<lparr>t_batch = 1, t_tokens = 1, t_dim = 1, t_data = [Num 1]\<rparr>, s))
        \<lparr>body_input = JStr ''a'', body_model = JStr ''my-model''\<rparr> ())) = 200
   \<and> r_model (fst (post_embed (\<lambda>(s::unit) t. (Inr \<lparr>t_batch = 1, t_tokens = 1, t_dim = 1, t_data = [Num 1]\<rparr>, s))
        \<lparr>body_input = JStr ''a'', body_model = JStr ''my-model''\<rparr> ())) = JStr ''my-model''
   \<and> r_status (fst (post_embed (\<lambda>(s::unit) t. (Inl (Thrown (Some ''boom'') ''Error: boom''), s))
        \<lparr>body_input = JStr ''a'', body_model = JStr ''my-model''\<rparr> ())) = 500
   \<and> r_model (fst (post_embed (\<lambda>(s::unit) t. (Inl (Thrown (Some ''boom'') ''Error: boom''), s))
        \<lparr>body_input = JStr ''a'', body_model = JStr ''my-model''\<rparr> ())) = JStr ''my-model''"
proof -
  let ?ok = "\<lambda>(s::unit) t. (Inr \<lparr>t_batch = 1, t_tokens = 1, t_dim = 1, t_data = [Num 1]\<rparr>, s)"
  let ?bad = "\<lambda>(s::unit) (t::string). (Inl (Thrown (Some ''boom'') ''Error: boom'') :: js_thrown + tensor, s)"
  let ?req = "\<lparr>body_input = JStr ''a'', body_model = JStr ''my-model''\<rparr>"
  have t: "texts_of (body_input ?req) = Inr [''a'']"
    by (simp add: texts_of_def items_of_def text_of_def js_nullish_def trim_a)
  have c1: "call_all ?ok [''a''] () = (Inr [\<lparr>t_batch = 1, t_tokens = 1, t_dim = 1, t_data = [Num 1]\<rparr>], ())"
    by simp
  have c2: "call_all ?bad [''a''] () = (Inl (Thrown (Some ''boom'') ''Error: boom''), ())"
    by simp
  have s1: "r_status (fst (post_embed ?ok ?req ())) = 200"
    unfolding post_embed_def
    by (subst embed_handler_success[OF t c1]) (simp add: list_response_def)
  have s2: "r_status (fst (post_embed ?bad ?req ())) = 500"
    unfolding post_embed_def
    by (subst embed_handler_failure[OF t c2]) (simp add: error_response_def)
  show ?thesis
    using embed_model_echo[of ?req ?ok "()"] embed_model_echo[of ?req ?bad "()"] s1 s2
    by simp
qed

section \<open>The request normalizer\<close>

lemma trim_blank: "trim '' '' = []"
  by (simp add: trim_def js_whitespace_def)

lemma trim_empty: "trim [] = []"
  by (simp add: trim_def)

lemma text_of_returns:
  assumes "String_returns t"
  shows "text_of t = Inr (placeholder_text t)"
proof -
  have "String_returns (js_nullish t (JStr ''''))"
    using assms by (simp add: js_nullish_def String_returns_def)
  then obtain str where "js_String (js_nullish t (JStr '''')) = Inr str"
    by (cases "js_String (js_nullish t (JStr ''''))") (simp_all add: String_returns_def)
  then show ?thesis by (simp add: text_of_def placeholder_text_def Let_def)
qed

lemma map_throwing_returns:
  assumes "\<forall>x\<in>set xs. f x = Inr (g x)"
  shows "map_throwing f xs = Inr (map g xs)"
  using assms by (induction xs) simp_all

lemma placeholder_text_nonempty: "placeholder_text t \<noteq> []"
  by (simp add: placeholder_text_def Let_def)

lemma placeholder_text_JStr: "placeholder_text (JStr str) = (if trim str = [] then '' '' else trim str)"
  by (simp add: placeholder_text_def js_nullish_def Let_def)

lemma items_of_single:
  assumes "\<nexists>xs. input = JArr xs" and "String_returns input"
  shows "\<exists>str. items_of input = Inr [JStr str] \<and> placeholder_text (JStr str) = placeholder_text input"
proof (cases "input = JUndefined \<or> input = JNull")
  case True
  then have "items_of input = Inr [JStr '' '']"
    by (auto simp: items_of_def js_nullish_def)
  moreover have "placeholder_text (JStr '' '') = placeholder_text input"
    using True by (auto simp: placeholder_text_def js_nullish_def trim_blank trim_empty)
  ultimately show ?thesis by blast
next
  case False
  from assms(2) obtain str where s: "js_String input = Inr str"
    by (cases "js_String input") (simp_all add: String_returns_def)
  have n1: "js_nullish input (JStr '' '') = input" and n2: "js_nullish input (JStr '''') = input"
    using False by (simp_all add: js_nullish_def)
  have "items_of input = Inr [JStr str]"
    using assms(1) s n1 by (cases input) (simp_all add: items_of_def)
  moreover have "placeholder_text (JStr str) = placeholder_text input"
    using s n2 by (simp add: placeholder_text_def js_nullish_def)
  ultimately show ?thesis by blast
qed

lemma texts_of_returns:
  assumes "\<forall>t\<in>set (request_items input). String_returns t"
  shows "texts_of input = Inr (map placeholder_text (request_items input))"
proof (cases "\<exists>xs. input = JArr xs")
  case True
  then obtain xs where x: "input = JArr xs" by blast
  with assms have "\<forall>t\<in>set xs. text_of t = Inr (placeholder_text t)"
    by (simp add: request_items_def text_of_returns)
  then have "map_throwing text_of xs = Inr (map placeholder_text xs)"
    by (rule map_throwing_returns)
  with x show ?thesis by (simp add: texts_of_def items_of_def request_items_def)
next
  case False
  then have r: "request_items input = [input]"
    by (cases input) (simp_all add: request_items_def)
  with assms have "String_returns input" by simp
  from items_of_single[OF False this] obtain str
    where i: "items_of input = Inr [JStr str]"
      and p: "placeholder_text (JStr str) = placeholder_text input" by blast
  have "text_of (JStr str) = Inr (placeholder_text (JStr str))"
    by (rule text_of_returns) (simp add: String_returns_def)
  with i p r show ?thesis by (simp add: texts_of_def)
qed

text \<open>
  Claim C6, as stated, fails: the normalizer returns the empty sequence for the empty
  array, so its result is not always a non-empty sequence.
\<close>

theorem texts_of_normalized_counterexample:
  "texts_of (JArr []) = Inr []"
  by (simp add: texts_of_def items_of_def)

text \<open>An item that cannot be converted to a string ends the normalizer with a throw.\<close>

lemma texts_of_unconvertible:
  "texts_of (JArr [JStr ''a'', JObj False]) = Inl TypeError_primitive"
  by (simp add: texts_of_def items_of_def text_of_def js_nullish_def trim_a)

text \<open>
  Claim C6, amended. For every input whose items \<open>String\<close> converts without a throw, the
  normalizer returns one string per item, in order (a value that is not an array is one
  item, so the result is empty exactly for the empty array): each is the trimmed
  string form of its item (\<open>undefined\<close> and \<open>null\<close> as the empty string), or a single
  space when that is empty, and none is the empty string.
\<close>

theorem texts_of_normalized:
  assumes "\<forall>t\<in>set (request_items input). String_returns t"
  shows "texts_of input = Inr (map placeholder_text (request_items input))
       \<and> length (map placeholder_text (request_items input)) = length (request_items input)
       \<and> [] \<notin> set (map placeholder_text (request_items input))
       \<and> (map placeholder_text (request_items input) = [] \<longleftrightarrow> input = JArr [])
       \<and> (\<forall>i<length (request_items input). \<exists>str.
             js_String (js_nullish (request_items input ! i) (JStr '''')) = Inr str
           \<and> map placeholder_text (request_items input) ! i
               = (if trim str = [] then '' '' else trim str))"
proof (intro conjI)
  show "texts_of input = Inr (map placeholder_text (request_items input))"
    using assms by (rule texts_of_returns)
  show "length (map placeholder_text (request_items input)) = length (request_items input)"
    by simp
  show "[] \<notin> set (map placeholder_text (request_items input))"
    using placeholder_text_nonempty by (auto simp: image_iff) metis
  show "map placeholder_text (request_items input) = [] \<longleftrightarrow> input = JArr []"
    by (cases input) (simp_all add: request_items_def)
  show "\<forall>i<length (request_items input). \<exists>str.
             js_String (js_nullish (request_items input ! i) (JStr '''')) = Inr str
           \<and> map placeholder_text (request_items input) ! i
               = (if trim str = [] then '' '' else trim str)"
  proof (intro allI impI)
    fix i assume i: "i < length (request_items input)"
    let ?t = "request_items input ! i"
    have "String_returns ?t" using assms i by simp
    then have "String_returns (js_nullish ?t (JStr ''''))"
      by (simp add: js_nullish_def String_returns_def)
    then obtain str where s: "js_String (js_nullish ?t (JStr '''')) = Inr str"
      by (cases "js_String (js_nullish ?t (JStr ''''))") (simp_all add: String_returns_def)
    then have "placeholder_text ?t = (if trim str = [] then '' '' else trim str)"
      by (simp add: placeholder_text_def Let_def)
    with s i show "\<exists>str. js_String (js_nullish ?t (JStr '''')) = Inr str
           \<and> map placeholder_text (request_items input) ! i
               = (if trim str = [] then '' '' else trim str)" by simp
  qed
qed

lemma trim_example: "trim ''  a b  '' = ''a b''"
  by (simp add: trim_def js_whitespace_def)

theorem texts_of_normalized_witness:
  "texts_of (JArr [JStr ''  a b  '', JNull, JStr '' '', JNum True ''7'']) = Inr [''a b'', '' '', '' '', ''7'']
   \<and> texts_of JNull = Inr ['' '']
   \<and> texts_of (JStr ''  a b  '') = Inr [''a b'']"
proof -
  have p: "placeholder_text (JStr ''  a b  '') = ''a b''" "placeholder_text JNull = '' ''"
    "placeholder_text (JStr '' '') = '' ''" "placeholder_text (JNum True ''7'') = ''7''"
    by (simp_all add: placeholder_text_def js_nullish_def trim_def js_whitespace_def)
  show ?thesis
    using texts_of_normalized[of "JArr [JStr ''  a b  '', JNull, JStr '' '', JNum True ''7'']"]
      texts_of_normalized[of JNull] texts_of_normalized[of "JStr ''  a b  ''"]
    by (simp add: request_items_def String_returns_def p)
qed

section \<open>The prefix strategy\<close>

text \<open>
  The regular expression finds the marker exactly when the identifier contains it as a
  substring up to the case of letters.
\<close>

lemma regex_bge_i_test_intro:
  assumes "letter_i CHR ''b'' a" "letter_i CHR ''g'' b" "letter_i CHR ''e'' c"
  shows "regex_bge_i_test (pre @ a # b # c # post)"
proof (induction pre)
  case Nil
  then show ?case using assms by simp
next
  case (Cons p ps)
  obtain x y zs where e: "ps @ a # b # c # post = x # y # zs"
    by (cases ps; cases "tl ps") auto
  with Cons show ?case by simp
qed

lemma regex_bge_i_test_elim:
  assumes "regex_bge_i_test s"
  shows "\<exists>pre a b c post. s = pre @ a # b # c # post
           \<and> letter_i CHR ''b'' a \<and> letter_i CHR ''g'' b \<and> letter_i CHR ''e'' c"
  using assms
proof (induction s rule: regex_bge_i_test.induct)
  case (1 a b c rest)
  show ?case
  proof (cases "letter_i CHR ''b'' a \<and> letter_i CHR ''g'' b \<and> letter_i CHR ''e'' c")
    case True
    then have "a # b # c # rest = [] @ a # b # c # rest \<and> letter_i CHR ''b'' a
        \<and> letter_i CHR ''g'' b \<and> letter_i CHR ''e'' c" by simp
    then show ?thesis by blast
  next
    case False
    with 1 obtain pre a' b' c' post where "b # c # rest = pre @ a' # b' # c' # post"
      "letter_i CHR ''b'' a'" "letter_i CHR ''g'' b'" "letter_i CHR ''e'' c'"
      by auto
    then have "a # b # c # rest = (a # pre) @ a' # b' # c' # post \<and> letter_i CHR ''b'' a'
        \<and> letter_i CHR ''g'' b' \<and> letter_i CHR ''e'' c'" by simp
    then show ?thesis by blast
  qed
qed simp_all

lemma map_upper_bge:
  "map ascii_upper mid = map ascii_upper ''bge'' \<longleftrightarrow>
     (\<exists>a b c. mid = [a, b, c] \<and> letter_i CHR ''b'' a \<and> letter_i CHR ''g'' b \<and> letter_i CHR ''e'' c)"
  by (cases mid; cases "tl mid"; cases "tl (tl mid)"; cases "tl (tl (tl mid))")
     (auto simp: letter_i_def)

lemma regex_bge_i_test_contains: "regex_bge_i_test s \<longleftrightarrow> contains_ci ''bge'' s"
proof
  assume "regex_bge_i_test s"
  from regex_bge_i_test_elim[OF this] obtain pre a b c post
    where "s = pre @ [a, b, c] @ post" "letter_i CHR ''b'' a" "letter_i CHR ''g'' b" "letter_i CHR ''e'' c"
    by auto
  then show "contains_ci ''bge'' s"
    unfolding contains_ci_def using map_upper_bge[of "[a, b, c]"] by blast
next
  assume "contains_ci ''bge'' s"
  then obtain pre mid post where s: "s = pre @ mid @ post"
    and m: "map ascii_upper mid = map ascii_upper ''bge''"
    unfolding contains_ci_def by blast
  from m obtain a b c where "mid = [a, b, c]" "letter_i CHR ''b'' a" "letter_i CHR ''g'' b" "letter_i CHR ''e'' c"
    using map_upper_bge[of mid] by blast
  with s show "regex_bge_i_test s"
    using regex_bge_i_test_intro[of a b c pre post] by simp
qed

text \<open>
  Claim C8. \<open>withPrefix\<close> returns its text unchanged unless the prefix feature is on and
  the model identifier contains the marker \<open>bge\<close> as a case-insensitive substring; then
  it returns the text after \<open>"query: "\<close> when the role is \<open>query\<close> and after
  \<open>"passage: "\<close> for every other role.
\<close>

theorem withPrefix_cases:
  "withPrefix MODEL_ID str kind =
     (if USE_PREFIX_FOR_BGE \<and> contains_ci ''bge'' MODEL_ID
      then (if kind = ''query'' then ''query: '' @ str else ''passage: '' @ str)
      else str)"
  by (simp add: withPrefix_def regex_bge_i_test_contains)

theorem withPrefix_cases_witness:
  "withPrefix ''Xenova/bge-small-en-v1.5'' ''hello'' ''query'' = ''query: hello''
   \<and> withPrefix ''Xenova/BGE-small'' ''hello'' ''passage'' = ''passage: hello''
   \<and> withPrefix ''Xenova/bge-small-en-v1.5'' ''hello'' ''other'' = ''passage: hello''
   \<and> withPrefix ''Xenova/all-MiniLM-L6-v2'' ''hello'' ''query'' = ''hello''"
proof -
  have a: "contains_ci ''bge'' ''Xenova/bge-small-en-v1.5''"
    unfolding regex_bge_i_test_contains[symmetric] by (simp add: letter_i_def ascii_upper_def)
  have b: "contains_ci ''bge'' ''Xenova/BGE-small''"
    unfolding regex_bge_i_test_contains[symmetric] by (simp add: letter_i_def ascii_upper_def)
  have c: "\<not> contains_ci ''bge'' ''Xenova/all-MiniLM-L6-v2''"
    unfolding regex_bge_i_test_contains[symmetric] by (simp add: letter_i_def ascii_upper_def)
  show ?thesis
    using withPrefix_cases[of "''Xenova/bge-small-en-v1.5''" "''hello''" "''query''"]
      withPrefix_cases[of "''Xenova/BGE-small''" "''hello''" "''passage''"]
      withPrefix_cases[of "''Xenova/bge-small-en-v1.5''" "''hello''" "''other''"]
      withPrefix_cases[of "''Xenova/all-MiniLM-L6-v2''" "''hello''" "''query''"]
    by (simp add: a b c USE_PREFIX_FOR_BGE_def)
qed

section \<open>The inference adapter\<close>












end
